theory Spec2Isabelle
  imports Complex_Main
begin

section \<open>Decoded payloads\<close>

text \<open>
  The handlers receive whatever \<^verbatim>\<open>JSON.parse\<close> produced, or the raw string when parsing
  failed. A decoded payload is therefore a JSON value; a number is the (rational) value of
  the parsed double, and an object is the list of its own properties. The result of reading
  a property is a \<open>json option\<close>, \<open>None\<close> being JavaScript's \<^verbatim>\<open>undefined\<close>, which no
  JSON text decodes to.
\<close>

datatype json =
    JNull
  | JBool bool
  | JNum rat
  | JStr string
  | JArr "json list"
  | JObj "(string \<times> json) list"

datatype js_error = TypeError | RangeError

text \<open>
  \<^verbatim>\<open>payload.k\<close> for the field names the handlers read (\<^verbatim>\<open>text\<close>, \<^verbatim>\<open>words\<close>,
  \<^verbatim>\<open>studentName\<close>, \<^verbatim>\<open>question\<close>, \<^verbatim>\<open>answers\<close>, \<^verbatim>\<open>percentage\<close>, \<^verbatim>\<open>index\<close>, \<^verbatim>\<open>scores\<close>): reading a
  property of \<^verbatim>\<open>null\<close> throws a TypeError, an object yields its own property or
  \<^verbatim>\<open>undefined\<close>, and every other value (boolean, number, string, array) has no property
  of these names.
\<close>

fun get_prop :: "json \<Rightarrow> string \<Rightarrow> js_error + json option" where
  "get_prop JNull k = Inl TypeError"
| "get_prop (JObj kvs) k = Inr (map_of kvs k)"
| "get_prop (JBool b) k = Inr None"
| "get_prop (JNum r) k = Inr None"
| "get_prop (JStr s) k = Inr None"
| "get_prop (JArr xs) k = Inr None"

text \<open>JavaScript truthiness, as tested by \<^verbatim>\<open>if (v)\<close> and \<^verbatim>\<open>a && b\<close>.\<close>

fun truthy :: "json option \<Rightarrow> bool" where
  "truthy None = False"
| "truthy (Some JNull) = False"
| "truthy (Some (JBool b)) = b"
| "truthy (Some (JNum r)) = (r \<noteq> 0)"
| "truthy (Some (JStr s)) = (s \<noteq> [])"
| "truthy (Some (JArr xs)) = True"
| "truthy (Some (JObj kvs)) = True"

section \<open>The classroom page: display state and reconciler rules\<close>

datatype view_mode = Content | CognitiveTest

record answer =
  answer_text :: "json option"
  percentage :: "json option"
  revealed :: bool

datatype sound = Reveal | Buzzer

text \<open>
  The state of \<^verbatim>\<open>ClassroomPage\<close> that the RPC handlers of \<^verbatim>\<open>ClassroomInner\<close> write,
  together with the two effects they have outside React state: the pending
  \<^verbatim>\<open>setTimeout\<close> callbacks (each recorded by its due time in milliseconds; every one of
  them runs \<^verbatim>\<open>setFocusedStudent(null)\<close>) and the sounds played so far.
\<close>

record classroom =
  content :: json
  highlights :: json
  focusedStudent :: json
  viewMode :: view_mode
  cognitiveQuestion :: json
  cognitiveAnswers :: "answer list"
  teamScores :: json
  now :: nat
  timers :: "nat list"
  sounds :: "sound list"

text \<open>
  A handler run: what the async handler settled with (\<open>Inl\<close> a thrown error, \<open>Inr\<close> the
  returned value, \<open>None\<close> for \<^verbatim>\<open>undefined\<close>) and the state after the state setters it
  called before settling.
\<close>

type_synonym 's outcome = "(js_error + json option) \<times> 's"

definition classroom_highlight_text :: "json \<Rightarrow> classroom \<Rightarrow> classroom outcome" where
  "classroom_highlight_text payload st =
     (case get_prop payload ''words'' of
        Inl e \<Rightarrow> (Inl e, st)
      | Inr None \<Rightarrow> (Inr None, st)
      | Inr (Some ws) \<Rightarrow>
          if truthy (Some ws)
          then (Inr None, st\<lparr>highlights := ws, viewMode := Content\<rparr>)
          else (Inr None, st))"

definition classroom_update_content :: "json \<Rightarrow> classroom \<Rightarrow> classroom outcome" where
  "classroom_update_content payload st =
     (case get_prop payload ''text'' of
        Inl e \<Rightarrow> (Inl e, st)
      | Inr None \<Rightarrow> (Inr None, st)
      | Inr (Some t) \<Rightarrow>
          if truthy (Some t)
          then (Inr None, st\<lparr>content := t, highlights := JArr [], viewMode := Content\<rparr>)
          else (Inr None, st))"

text \<open>
  \<^verbatim>\<open>setFocusedStudent(payload.studentName); setTimeout(() => setFocusedStudent(null), 5000)\<close>:
  the timeout is added to the pending ones; the handler keeps no handle to it and calls
  no \<^verbatim>\<open>clearTimeout\<close>.
\<close>

definition show_student_focus :: "json \<Rightarrow> classroom \<Rightarrow> classroom outcome" where
  "show_student_focus payload st =
     (case get_prop payload ''studentName'' of
        Inl e \<Rightarrow> (Inl e, st)
      | Inr None \<Rightarrow> (Inr None, st)
      | Inr (Some n) \<Rightarrow>
          if truthy (Some n)
          then (Inr None, st\<lparr>focusedStudent := n, timers := timers st @ [now st + 5000]\<rparr>)
          else (Inr None, st))"

text \<open>
  The passage of \<open>d\<close> milliseconds: every pending timeout that has become due runs its
  callback \<^verbatim>\<open>setFocusedStudent(null)\<close> and is gone; the others stay pending.
\<close>

definition advance :: "nat \<Rightarrow> classroom \<Rightarrow> classroom" where
  "advance d st =
     (let t = now st + d;
          due = filter (\<lambda>x. x \<le> t) (timers st)
      in st\<lparr>now := t,
            timers := filter (\<lambda>x. t < x) (timers st),
            focusedStudent := (if due = [] then focusedStudent st else JNull)\<rparr>)"

text \<open>
  \<^verbatim>\<open>payload.answers.map((a) => ({text: a.text, percentage: a.percentage, revealed: false}))\<close>
  on the elements of an array: reading a property of a \<^verbatim>\<open>null\<close> element throws.
\<close>

fun init_answers :: "json list \<Rightarrow> js_error + answer list" where
  "init_answers [] = Inr []"
| "init_answers (a # rest) =
     (case get_prop a ''text'' of
        Inl e \<Rightarrow> Inl e
      | Inr t \<Rightarrow>
          (case get_prop a ''percentage'' of
             Inl e \<Rightarrow> Inl e
           | Inr p \<Rightarrow>
               (case init_answers rest of
                  Inl e \<Rightarrow> Inl e
                | Inr ans \<Rightarrow>
                    Inr (\<lparr>answer_text = t, percentage = p, revealed = False\<rparr> # ans))))"

text \<open>
  \<^verbatim>\<open>setCognitiveQuestion\<close> is called before \<^verbatim>\<open>payload.answers.map\<close>: when the latter
  throws (the value has no \<^verbatim>\<open>map\<close> method because it is not an array, or an element is
  \<^verbatim>\<open>null\<close>), the question has already been replaced.
\<close>

definition start_cognitive_test :: "json \<Rightarrow> classroom \<Rightarrow> classroom outcome" where
  "start_cognitive_test payload st =
     (case get_prop payload ''question'' of
        Inl e \<Rightarrow> (Inl e, st)
      | Inr None \<Rightarrow> (Inr None, st)
      | Inr (Some q) \<Rightarrow>
          if \<not> truthy (Some q) then (Inr None, st)
          else
            (case get_prop payload ''answers'' of
               Inl e \<Rightarrow> (Inl e, st)
             | Inr None \<Rightarrow> (Inr None, st)
             | Inr (Some a) \<Rightarrow>
                 if \<not> truthy (Some a) then (Inr None, st)
                 else
                   (case a of
                      JArr xs \<Rightarrow>
                        (case init_answers xs of
                           Inl e \<Rightarrow> (Inl e, st\<lparr>cognitiveQuestion := q\<rparr>)
                         | Inr ans \<Rightarrow>
                             (Inr None, st\<lparr>cognitiveQuestion := q, cognitiveAnswers := ans,
                                            viewMode := CognitiveTest\<rparr>))
                    | _ \<Rightarrow> (Inl TypeError, st\<lparr>cognitiveQuestion := q\<rparr>))))"

text \<open>
  \<^verbatim>\<open>xs[index]\<close> for a number: an element when the number is an integer from \<open>0\<close> up to the
  length, \<^verbatim>\<open>undefined\<close> otherwise (a negative or fractional number names no element).
\<close>

definition js_index :: "'a list \<Rightarrow> rat \<Rightarrow> 'a option" where
  "js_index xs r =
     (if of_int \<lfloor>r\<rfloor> = r \<and> 0 \<le> r \<and> nat \<lfloor>r\<rfloor> < length xs then Some (xs ! nat \<lfloor>r\<rfloor>) else None)"

text \<open>
  The state updater of \<^verbatim>\<open>reveal_answer\<close>: a copy of the previous array in which the
  element at \<^verbatim>\<open>index\<close>, when there is one (an answer object is always truthy), has
  \<^verbatim>\<open>revealed = true\<close>.
\<close>

definition reveal_at :: "rat \<Rightarrow> answer list \<Rightarrow> answer list" where
  "reveal_at r prev =
     (case js_index prev r of
        Some a \<Rightarrow> prev[nat \<lfloor>r\<rfloor> := a\<lparr>revealed := True\<rparr>]
      | None \<Rightarrow> prev)"

definition reveal_answer :: "json \<Rightarrow> classroom \<Rightarrow> classroom outcome" where
  "reveal_answer payload st =
     (case get_prop payload ''index'' of
        Inl e \<Rightarrow> (Inl e, st)
      | Inr (Some (JNum r)) \<Rightarrow>
          (Inr None, st\<lparr>cognitiveAnswers := reveal_at r (cognitiveAnswers st),
                         sounds := sounds st @ [Reveal]\<rparr>)
      | Inr _ \<Rightarrow> (Inr None, st))"

definition update_scores :: "json \<Rightarrow> classroom \<Rightarrow> classroom outcome" where
  "update_scores payload st =
     (case get_prop payload ''scores'' of
        Inl e \<Rightarrow> (Inl e, st)
      | Inr None \<Rightarrow> (Inr None, st)
      | Inr (Some s) \<Rightarrow>
          if truthy (Some s) then (Inr None, st\<lparr>teamScores := s\<rparr>) else (Inr None, st))"

definition show_error_buzzer :: "json \<Rightarrow> classroom \<Rightarrow> classroom outcome" where
  "show_error_buzzer payload st = (Inr None, st\<lparr>sounds := sounds st @ [Buzzer]\<rparr>)"

text \<open>The methods \<^verbatim>\<open>ClassroomInner\<close> registers, and the rule each one is bound to.\<close>

datatype rpc_method =
    HighlightText
  | UpdateContent
  | ShowStudentFocus
  | StartCognitiveTest
  | RevealAnswer
  | UpdateScores
  | ShowErrorBuzzer

fun classroom_rule :: "rpc_method \<Rightarrow> json \<Rightarrow> classroom \<Rightarrow> classroom outcome" where
  "classroom_rule HighlightText = classroom_highlight_text"
| "classroom_rule UpdateContent = classroom_update_content"
| "classroom_rule ShowStudentFocus = show_student_focus"
| "classroom_rule StartCognitiveTest = start_cognitive_test"
| "classroom_rule RevealAnswer = reveal_answer"
| "classroom_rule UpdateScores = update_scores"
| "classroom_rule ShowErrorBuzzer = show_error_buzzer"

section \<open>The talk page: board state and reconciler rules\<close>

text \<open>The state of \<^verbatim>\<open>useBoardRPC\<close>; the talk page has no view mode.\<close>

record board =
  boardText :: json
  boardHighlights :: json

text \<open>
  What \<^verbatim>\<open>JSON.stringify({ success: true })\<close> returns, the value every handler of
  \<^verbatim>\<open>useBoardRPC\<close> returns.
\<close>

definition success_string :: string where
  "success_string = ''{'' @ [CHR 0x22] @ ''success'' @ [CHR 0x22] @ '':true}''"

text \<open>
  \<^verbatim>\<open>if (payload.text !== undefined)\<close>: every present value, the empty string, \<^verbatim>\<open>null\<close>,
  \<^verbatim>\<open>0\<close> and \<^verbatim>\<open>false\<close> included, replaces the board text.
\<close>

definition board_update_content :: "json \<Rightarrow> board \<Rightarrow> board outcome" where
  "board_update_content payload st =
     (case get_prop payload ''text'' of
        Inl e \<Rightarrow> (Inl e, st)
      | Inr None \<Rightarrow> (Inr (Some (JStr success_string)), st)
      | Inr (Some t) \<Rightarrow>
          (Inr (Some (JStr success_string)), st\<lparr>boardText := t, boardHighlights := JArr []\<rparr>))"

definition board_highlight_text :: "json \<Rightarrow> board \<Rightarrow> board outcome" where
  "board_highlight_text payload st =
     (case get_prop payload ''words'' of
        Inl e \<Rightarrow> (Inl e, st)
      | Inr None \<Rightarrow> (Inr (Some (JStr success_string)), st)
      | Inr (Some ws) \<Rightarrow>
          if truthy (Some ws)
          then (Inr (Some (JStr success_string)), st\<lparr>boardHighlights := ws\<rparr>)
          else (Inr (Some (JStr success_string)), st))"

definition clear_board :: "json \<Rightarrow> board \<Rightarrow> board outcome" where
  "clear_board payload st =
     (Inr (Some (JStr success_string)), st\<lparr>boardText := JStr [], boardHighlights := JArr []\<rparr>)"

definition board_show_student_focus :: "json \<Rightarrow> board \<Rightarrow> board outcome" where
  "board_show_student_focus payload st = (Inr (Some (JStr success_string)), st)"

text \<open>
  The methods \<^verbatim>\<open>useBoardRPC\<close> registers, the rule each one is bound to, and the fields
  each rule reads: \<^verbatim>\<open>clear_board\<close> and the talk page's \<^verbatim>\<open>show_student_focus\<close> read
  nothing of the payload.
\<close>

datatype board_method =
    BoardUpdateContent
  | BoardHighlightText
  | ClearBoard
  | BoardShowStudentFocus

fun board_rule :: "board_method \<Rightarrow> json \<Rightarrow> board \<Rightarrow> board outcome" where
  "board_rule BoardUpdateContent = board_update_content"
| "board_rule BoardHighlightText = board_highlight_text"
| "board_rule ClearBoard = clear_board"
| "board_rule BoardShowStudentFocus = board_show_student_focus"

fun board_required_fields :: "board_method \<Rightarrow> string list" where
  "board_required_fields BoardUpdateContent = [''text'']"
| "board_required_fields BoardHighlightText = [''words'']"
| "board_required_fields ClearBoard = []"
| "board_required_fields BoardShowStudentFocus = []"

section \<open>Registration of a handler: \<^verbatim>\<open>useRpcHandler\<close>\<close>

type_synonym session = nat

text \<open>
  One use of the hook, together with the transport it registers on. \<open>handlerRef\<close>,
  \<open>registeredRef\<close> and \<open>unregisterRef\<close> are the hook's three refs; \<open>unregisterRef\<close>
  holds the function \<^verbatim>\<open>registerRpcMethod\<close> returned, recorded as the binding it removes.
  \<open>bindings\<close> are the transport's active bindings made through this hook; each is the
  wrapper of lines 40 to 60, which calls \<^verbatim>\<open>handlerRef.current\<close>.
\<close>

record 'h registry =
  handlerRef :: 'h
  registeredRef :: bool
  unregisterRef :: "(session \<times> string) option"
  bindings :: "(session \<times> string) list"

text \<open>Every render stores the handler it was given: \<^verbatim>\<open>handlerRef.current = handler\<close>.\<close>

definition render :: "'h \<Rightarrow> 'h registry \<Rightarrow> 'h registry" where
  "render h w = w\<lparr>handlerRef := h\<rparr>"

text \<open>
  Modelled from the spec: the session transport of the livekit-client library, which is
  not part of the repository. \<^verbatim>\<open>registerRpcMethod(method, wrapper)\<close> adds one binding
  and returns the function that removes it again, which does not throw; whether
  \<^verbatim>\<open>registerRpcMethod\<close> itself throws is an input (\<open>throws\<close>) of the effect below.
\<close>

definition registerRpcMethod ::
  "session \<Rightarrow> string \<Rightarrow> (session \<times> string) list \<Rightarrow> (session \<times> string) list" where
  "registerRpcMethod s method bs = bs @ [(s, method)]"

definition unregisterRpcMethod ::
  "session \<times> string \<Rightarrow> (session \<times> string) list \<Rightarrow> (session \<times> string) list" where
  "unregisterRpcMethod b bs = remove1 b bs"

text \<open>
  The body of the effect (lines 26 to 80). \<open>room\<close> is \<open>None\<close> when the room or its local
  participant is not ready. The result says whether the run returned a cleanup function:
  the two early returns return none.
\<close>

definition register_effect ::
  "session option \<Rightarrow> string \<Rightarrow> bool \<Rightarrow> 'h registry \<Rightarrow> bool \<times> 'h registry" where
  "register_effect room method throws w =
     (case room of
        None \<Rightarrow> (False, w\<lparr>registeredRef := False\<rparr>)
      | Some s \<Rightarrow>
          if registeredRef w then (False, w)
          else if throws then (True, w\<lparr>registeredRef := False\<rparr>)
          else (True, w\<lparr>unregisterRef := Some (s, method),
                         bindings := registerRpcMethod s method (bindings w),
                         registeredRef := True\<rparr>))"

text \<open>The cleanup function the effect returns (lines 69 to 79).\<close>

definition cleanup :: "'h registry \<Rightarrow> 'h registry" where
  "cleanup w =
     (case unregisterRef w of
        None \<Rightarrow> w
      | Some b \<Rightarrow> w\<lparr>bindings := unregisterRpcMethod b (bindings w), registeredRef := False\<rparr>)"

text \<open>
  One register call: the hook is used with handler \<open>h\<close> on the connected session \<open>s\<close>
  for \<open>method\<close>, and the effect body runs.
\<close>

fun register :: "'h \<times> session \<times> string \<times> bool \<Rightarrow> 'h registry \<Rightarrow> 'h registry" where
  "register (h, s, method, throws) w = snd (register_effect (Some s) method throws (render h w))"

definition fresh :: "'h \<Rightarrow> 'h registry" where
  "fresh h = \<lparr>handlerRef = h, registeredRef = False, unregisterRef = None, bindings = []\<rparr>"

text \<open>
  The effect as React runs it when the room or the method has changed: the cleanup
  function of the previous run, when that run returned one, and then the body.
\<close>

fun rerun ::
  "session option \<times> string \<times> bool \<Rightarrow> bool \<times> 'h registry \<Rightarrow> bool \<times> 'h registry" where
  "rerun (room, method, throws) (hasCleanup, w) =
     register_effect room method throws (if hasCleanup then cleanup w else w)"

text \<open>
  Payload decoding (lines 44 to 49): \<^verbatim>\<open>JSON.parse\<close> is a parameter, \<open>None\<close> where it
  throws; the raw string is used then.
\<close>

definition decode :: "(string \<Rightarrow> json option) \<Rightarrow> string \<Rightarrow> json" where
  "decode parse raw = (case parse raw of Some v \<Rightarrow> v | None \<Rightarrow> JStr raw)"

text \<open>
  The wrapper bound to the transport (lines 40 to 60), for a hook whose handlers act on a
  state \<open>'s\<close>: decode, call the handler that is in \<open>handlerRef\<close> now, and serialise
  \<^verbatim>\<open>response || { success: true }\<close>; an error the handler throws is thrown again.
  \<^verbatim>\<open>JSON.stringify\<close> is a parameter.
\<close>

definition invoke ::
  "(string \<Rightarrow> json option) \<Rightarrow> (json \<Rightarrow> string) \<Rightarrow> (json \<Rightarrow> 's \<Rightarrow> 's outcome) registry \<Rightarrow>
   string \<Rightarrow> 's \<Rightarrow> (js_error + string) \<times> 's" where
  "invoke parse stringify w raw st =
     (case handlerRef w (decode parse raw) st of
        (Inl e, st') \<Rightarrow> (Inl e, st')
      | (Inr None, st') \<Rightarrow> (Inr (stringify (JObj [(''success'', JBool True)])), st')
      | (Inr (Some r), st') \<Rightarrow>
          (Inr (stringify (if truthy (Some r) then r else JObj [(''success'', JBool True)])), st'))"

section \<open>The highlight matcher: \<^verbatim>\<open>splitTextOnHighlights\<close>\<close>

text \<open>
  Strings are sequences of ASCII characters here; \<^verbatim>\<open>toLowerCase\<close> and the regular
  expression's \<^verbatim>\<open>i\<close> flag both identify exactly the letters \<open>A\<close> to \<open>Z\<close> with
  \<open>a\<close> to \<open>z\<close> on them.
\<close>

record HighlightWord =
  word :: string
  type :: string

datatype hl_style = Highlight | Underline

record HighlightRule =
  color :: string
  style :: hl_style

definition DEFAULT_RED :: string where
  "DEFAULT_RED = ''#DC2626''"

definition SECONDARY_BLUE :: string where
  "SECONDARY_BLUE = ''#0364CE''"

text \<open>The own properties of \<^verbatim>\<open>STYLE_MAP\<close>, in the order of the source.\<close>

definition STYLE_MAP :: "(string \<times> HighlightRule) list" where
  "STYLE_MAP =
     [(''highlight'', \<lparr>color = DEFAULT_RED, style = Highlight\<rparr>),
      (''underline'', \<lparr>color = DEFAULT_RED, style = Underline\<rparr>),
      (''noun'', \<lparr>color = DEFAULT_RED, style = Highlight\<rparr>),
      (''verb'', \<lparr>color = DEFAULT_RED, style = Underline\<rparr>),
      (''secondary'', \<lparr>color = SECONDARY_BLUE, style = Highlight\<rparr>),
      (''secondary-underline'', \<lparr>color = SECONDARY_BLUE, style = Underline\<rparr>),
      (''concept'', \<lparr>color = SECONDARY_BLUE, style = Highlight\<rparr>),
      (''blue'', \<lparr>color = SECONDARY_BLUE, style = Highlight\<rparr>)]"

definition FALLBACK_STYLE :: HighlightRule where
  "FALLBACK_STYLE = \<lparr>color = ''#facc15'', style = Highlight\<rparr>"

definition lower_char :: "char \<Rightarrow> char" where
  "lower_char c =
     (let n = (of_char c :: nat) in if 65 \<le> n \<and> n \<le> 90 then char_of (n + 32) else c)"

definition toLowerCase :: "string \<Rightarrow> string" where
  "toLowerCase s = map lower_char s"

text \<open>
  \<^verbatim>\<open>STYLE_MAP[match.type.toLowerCase()] || FALLBACK_STYLE\<close>, for type names that are not
  names of properties every object inherits.
\<close>

definition style_for :: "string \<Rightarrow> HighlightRule" where
  "style_for t = (case map_of STYLE_MAP (toLowerCase t) of Some r \<Rightarrow> r | None \<Rightarrow> FALLBACK_STYLE)"

text \<open>
  \<^verbatim>\<open>escapeRegExp\<close> puts a backslash before each of the characters
  \<^verbatim>\<open>. * + ? ^ $ { } ( ) | [ ] \\<close>.
\<close>

definition regexp_special :: "char \<Rightarrow> bool" where
  "regexp_special c = (c \<in> set (''.*+?^${}()|[]'' @ [CHR 0x5C]))"

definition escapeRegExp :: "string \<Rightarrow> string" where
  "escapeRegExp s = concat (map (\<lambda>c. if regexp_special c then [CHR 0x5C, c] else [c]) s)"

text \<open>
  The text an escaped alternative matches: a backslash makes the character after it
  literal, every other character of an escaped word is literal already.
\<close>

fun literal_of :: "string \<Rightarrow> string" where
  "literal_of [] = []"
| "literal_of [c] = [c]"
| "literal_of (c # d # cs) = (if c = CHR 0x5C then d # literal_of cs else c # literal_of (d # cs))"

text \<open>
  The pattern \<^verbatim>\<open>(w1|w2|...)\<close> with flags \<^verbatim>\<open>gi\<close> is kept as the list of the literals
  its alternatives match, one for each highlight and in their order.
\<close>

definition alternatives :: "HighlightWord list \<Rightarrow> string list" where
  "alternatives hls = map (\<lambda>h. literal_of (escapeRegExp (word h))) hls"

text \<open>An alternative matches at the start of \<open>rest\<close>, letter case ignored.\<close>

definition match_alt :: "string \<Rightarrow> string \<Rightarrow> bool" where
  "match_alt w rest =
     (length w \<le> length rest \<and> toLowerCase (take (length w) rest) = toLowerCase w)"

text \<open>
  A match of the pattern at the start of \<open>rest\<close>: the first alternative that matches
  wins, and the result is the length of the match.
\<close>

fun match_at :: "string list \<Rightarrow> string \<Rightarrow> nat option" where
  "match_at [] rest = None"
| "match_at (w # ws) rest = (if match_alt w rest then Some (length w) else match_at ws rest)"

text \<open>
  \<^verbatim>\<open>String.prototype.split\<close> with a regular expression that has one capture group, as
  ECMAScript defines it. \<open>acc\<close> is the text between the end \<open>p\<close> of the last match and
  the position \<open>q\<close> being tried, \<open>rest\<close> the text from \<open>q\<close> on. A match at \<open>q\<close> that ends
  at \<open>p\<close> (an empty match right after the last one) is passed over; any other match
  contributes the text before it and the captured text.
\<close>

function split_loop :: "string list \<Rightarrow> string \<Rightarrow> string \<Rightarrow> string list" where
  "split_loop alts acc [] = [acc]"
| "split_loop alts acc (c # cs) =
     (case match_at alts (c # cs) of
        None \<Rightarrow> split_loop alts (acc @ [c]) cs
      | Some n \<Rightarrow>
          if n = 0 \<and> acc = [] then split_loop alts (acc @ [c]) cs
          else acc # take n (c # cs) # split_loop alts [] (drop n (c # cs)))"
  by pat_completeness auto
termination
  by (relation "measure (\<lambda>(alts, acc, rest). 2 * length rest + (if acc = [] then 0 else 1))")
     auto

definition regexp_split :: "string list \<Rightarrow> string \<Rightarrow> string list" where
  "regexp_split alts s =
     (if s = [] then (if match_at alts [] = None then [[]] else []) else split_loop alts [] s)"

text \<open>
  What \<^verbatim>\<open>splitTextOnHighlights\<close> returns: the string itself, or the array of the parts,
  a part that is a highlight word wrapped in a styled span.
\<close>

datatype fragment = Plain string | Span HighlightRule string

datatype rendered = Text string | Parts "fragment list"

definition render_part :: "HighlightWord list \<Rightarrow> string \<Rightarrow> fragment" where
  "render_part hls part =
     (case List.find (\<lambda>h. toLowerCase (word h) = toLowerCase part) hls of
        Some m \<Rightarrow> Span (style_for (type m)) part
      | None \<Rightarrow> Plain part)"

definition splitTextOnHighlights :: "string \<Rightarrow> HighlightWord list \<Rightarrow> rendered" where
  "splitTextOnHighlights text hls =
     (if hls = [] \<or> text = [] then Text text
      else Parts (map (render_part hls) (regexp_split (alternatives hls) text)))"

text \<open>The text a result shows, and the parts of it that are marked.\<close>

fun fragment_text :: "fragment \<Rightarrow> string" where
  "fragment_text (Plain s) = s"
| "fragment_text (Span r s) = s"

fun rendered_text :: "rendered \<Rightarrow> string" where
  "rendered_text (Text s) = s"
| "rendered_text (Parts fs) = concat (map fragment_text fs)"

fun is_span :: "fragment \<Rightarrow> bool" where
  "is_span (Plain s) = False"
| "is_span (Span r s) = True"

fun spans :: "rendered \<Rightarrow> string list" where
  "spans (Text s) = []"
| "spans (Parts fs) = map fragment_text (filter is_span fs)"

section \<open>The signal extractor: \<^verbatim>\<open>useAudioAnalyzer\<close>\<close>

text \<open>
  What the hook may be handed as \<^verbatim>\<open>trackSource\<close>: nothing (\<^verbatim>\<open>undefined\<close>), a raw media
  track, or an object with properties (a track reference or a publication).
\<close>

datatype track_source =
    Absent
  | MediaStreamTrack nat
  | Wrapper "(string \<times> track_source) list"

text \<open>\<^verbatim>\<open>x?.k\<close>: \<^verbatim>\<open>undefined\<close> when \<open>x\<close> is, and when \<open>x\<close> has no property \<open>k\<close>.\<close>

fun opt_prop :: "track_source \<Rightarrow> string \<Rightarrow> track_source" where
  "opt_prop (Wrapper kvs) k = (case map_of kvs k of Some v \<Rightarrow> v | None \<Rightarrow> Absent)"
| "opt_prop Absent k = Absent"
| "opt_prop (MediaStreamTrack i) k = Absent"

text \<open>The memoised resolution of the media track (lines 29 to 49); \<open>None\<close> is \<^verbatim>\<open>undefined\<close>.\<close>

definition mediaStreamTrack :: "track_source \<Rightarrow> track_source option" where
  "mediaStreamTrack trackSource =
     (if trackSource = Absent then None
      else
        let viaReference =
              opt_prop (opt_prop (opt_prop trackSource ''publication'') ''track'') ''mediaStreamTrack'';
            viaPublication = opt_prop (opt_prop trackSource ''track'') ''mediaStreamTrack''
        in if viaReference \<noteq> Absent then Some viaReference
           else if viaPublication \<noteq> Absent then Some viaPublication
           else (case trackSource of MediaStreamTrack i \<Rightarrow> Some trackSource | _ \<Rightarrow> None))"

text \<open>
  \<^verbatim>\<open>new Array(n).fill(0)\<close>: a RangeError unless \<open>n\<close> is an integer from \<open>0\<close> to
  \<open>2\<^sup>3\<^sup>2 - 1\<close>.
\<close>

definition zero_array :: "rat \<Rightarrow> js_error + rat list" where
  "zero_array n =
     (if of_int \<lfloor>n\<rfloor> = n \<and> 0 \<le> n \<and> n < 2 ^ 32 then Inr (replicate (nat \<lfloor>n\<rfloor>) 0)
      else Inl RangeError)"

definition binCount :: "rat \<Rightarrow> rat" where
  "binCount fftSize = fftSize / 2"

text \<open>
  The hook's state: the \<open>data\<close> it returns, and whether \<open>analyserRef\<close> holds an analyser
  (the sampling loop stops when it does not).
\<close>

record analyzer =
  data :: "rat list"
  analyserRef :: bool

text \<open>The first render: \<^verbatim>\<open>useState(() => new Array(binCount).fill(0))\<close>.\<close>

definition analyzer_mount :: "rat \<Rightarrow> js_error + analyzer" where
  "analyzer_mount fftSize =
     (case zero_array (binCount fftSize) of
        Inl e \<Rightarrow> Inl e
      | Inr zeros \<Rightarrow> Inr \<lparr>data = zeros, analyserRef = False\<rparr>)"

text \<open>
  The effect body (lines 51 to 107). \<open>hasAudioContext\<close> says whether the platform has an
  audio context class, \<open>setupFails\<close> whether building the analysis graph throws (the
  error is caught and logged).
\<close>

definition analyzer_effect ::
  "track_source \<Rightarrow> rat \<Rightarrow> bool \<Rightarrow> bool \<Rightarrow> analyzer \<Rightarrow> js_error + analyzer" where
  "analyzer_effect trackSource fftSize hasAudioContext setupFails st =
     (case mediaStreamTrack trackSource of
        None \<Rightarrow>
          (case zero_array (binCount fftSize) of
             Inl e \<Rightarrow> Inl e
           | Inr zeros \<Rightarrow> Inr (st\<lparr>data := zeros\<rparr>))
      | Some track \<Rightarrow>
          if \<not> hasAudioContext \<or> setupFails then Inr st
          else Inr (st\<lparr>analyserRef := True\<rparr>))"

text \<open>The cleanup of an effect run that built the graph.\<close>

definition analyzer_cleanup :: "analyzer \<Rightarrow> analyzer" where
  "analyzer_cleanup st = st\<lparr>analyserRef := False\<rparr>"

text \<open>One animation frame: the byte magnitudes are normalised and stored.\<close>

definition update :: "nat list \<Rightarrow> analyzer \<Rightarrow> analyzer" where
  "update bytes st =
     (if analyserRef st then st\<lparr>data := map (\<lambda>v. of_nat v / 255) bytes\<rparr> else st)"

section \<open>Initial states and sample data\<close>

text \<open>The initial state of \<^verbatim>\<open>ClassroomPage\<close>, at time \<open>0\<close> with nothing pending.\<close>

definition initial_classroom :: classroom where
  "initial_classroom =
     \<lparr>content = JStr (''The quick brown fox jumps over the lazy dog. Programming is fun, '' @
                     ''and Artificial Intelligence helps us learn faster.''),
      highlights = JArr [],
      focusedStudent = JNull,
      viewMode = Content,
      cognitiveQuestion = JStr [],
      cognitiveAnswers = [],
      teamScores = JObj [(''Team Alpha'', JNum 0), (''Team Beta'', JNum 0), (''Team Gamma'', JNum 0)],
      now = 0,
      timers = [],
      sounds = []\<rparr>"

text \<open>The initial state of \<^verbatim>\<open>useBoardRPC\<close>.\<close>

definition initial_board :: board where
  "initial_board = \<lparr>boardText = JStr [], boardHighlights = JArr []\<rparr>"

text \<open>A highlight word as the agent sends it, and a quiz with two hidden answers.\<close>

definition fox :: json where
  "fox = JObj [(''word'', JStr ''fox''), (''type'', JStr ''noun'')]"

definition two_answers :: "answer list" where
  "two_answers =
     [\<lparr>answer_text = Some (JStr ''Paris''), percentage = Some (JNum 60), revealed = False\<rparr>,
      \<lparr>answer_text = Some (JStr ''Rome''), percentage = Some (JNum 40), revealed = False\<rparr>]"

text \<open>Two highlight terms: a noun, and a term whose word has length zero.\<close>

definition cat_noun :: HighlightWord where
  "cat_noun = \<lparr>word = ''cat'', type = ''noun''\<rparr>"

definition empty_term :: HighlightWord where
  "empty_term = \<lparr>word = [], type = ''verb''\<rparr>"

text \<open>Two handlers over a counter: one acknowledges, one counts the call.\<close>

definition ack :: "json \<Rightarrow> nat \<Rightarrow> nat outcome" where
  "ack payload st = (Inr None, st)"

definition count_call :: "json \<Rightarrow> nat \<Rightarrow> nat outcome" where
  "count_call payload st = (Inr None, Suc st)"

text \<open>A classroom in the middle of a lesson: a highlight on the board, a quiz loaded.\<close>

definition busy_classroom :: classroom where
  "busy_classroom = initial_classroom\<lparr>highlights := JArr [fox], cognitiveAnswers := two_answers\<rparr>"

definition busy_board :: board where
  "busy_board = \<lparr>boardText = JStr ''Newton'', boardHighlights = JArr [fox]\<rparr>"

text \<open>What the two pages show of the board: the content text and the highlight set.\<close>

definition classroom_view :: "classroom \<Rightarrow> json \<times> json" where
  "classroom_view st = (content st, highlights st)"

definition board_view :: "board \<Rightarrow> json \<times> json" where
  "board_view b = (boardText b, boardHighlights b)"

text \<open>
  The fields each method requires, and what its rule accepts as a usable value of such a
  field: a number for \<^verbatim>\<open>index\<close>, a truthy value for the others.
\<close>

fun required_fields :: "rpc_method \<Rightarrow> string list" where
  "required_fields HighlightText = [''words'']"
| "required_fields UpdateContent = [''text'']"
| "required_fields ShowStudentFocus = [''studentName'']"
| "required_fields StartCognitiveTest = [''question'', ''answers'']"
| "required_fields RevealAnswer = [''index'']"
| "required_fields UpdateScores = [''scores'']"
| "required_fields ShowErrorBuzzer = []"

fun is_number :: "json option \<Rightarrow> bool" where
  "is_number (Some (JNum r)) = True"
| "is_number v = False"

definition usable :: "rpc_method \<Rightarrow> json option \<Rightarrow> bool" where
  "usable m v = (if m = RevealAnswer then is_number v else truthy v)"

text \<open>A \<^verbatim>\<open>JSON.parse\<close> that knows the text \<^verbatim>\<open>null\<close> only, and a serialiser.\<close>

definition parse_null :: "string \<Rightarrow> json option" where
  "parse_null raw = (if raw = ''null'' then Some JNull else None)"

definition stringify_any :: "json \<Rightarrow> string" where
  "stringify_any v = success_string"

text \<open>
  Two focus calls three seconds apart: Karan at time \<open>0\<close>, Meera at time \<open>3000\<close>.
\<close>

definition karan_then_meera :: classroom where
  "karan_then_meera =
     snd (show_student_focus (JObj [(''studentName'', JStr ''Meera'')])
       (advance 3000
         (snd (show_student_focus (JObj [(''studentName'', JStr ''Karan'')]) initial_classroom))))"

section \<open>The \<^verbatim>\<open>highlight_text\<close> rule\<close>

text \<open>
  Claim C1 as the specification states it says that a payload without \<^verbatim>\<open>words\<close> clears
  the highlights. The rule of either page is guarded by \<^verbatim>\<open>if (payload.words)\<close>: on the
  payload \<^verbatim>\<open>{}\<close> the highlight set \<^verbatim>\<open>[fox]\<close> is still there afterwards.
\<close>

theorem highlight_text_absent_keeps_highlights:
  "get_prop (JObj []) ''words'' = Inr None \<and>
   highlights (snd (classroom_highlight_text (JObj [])
      (initial_classroom\<lparr>highlights := JArr [fox]\<rparr>))) = JArr [fox] \<and>
   boardHighlights (snd (board_highlight_text (JObj [])
      (initial_board\<lparr>boardHighlights := JArr [fox]\<rparr>))) = JArr [fox] \<and>
   JArr [fox] \<noteq> JArr []"
  by (simp add: classroom_highlight_text_def board_highlight_text_def)

text \<open>
  Claim C1, amended: on either page, a payload whose \<^verbatim>\<open>words\<close> is present and truthy
  (every array is, the empty one included) replaces the highlight set by the payload's
  words whatever it held before, so an empty array clears it; a payload whose
  \<^verbatim>\<open>words\<close> is absent or falsy leaves the state, highlights included, as it was.
\<close>

theorem highlight_text_replaces_or_keeps:
  "(get_prop payload ''words'' = Inr (Some ws) \<and> truthy (Some ws) \<longrightarrow>
      classroom_highlight_text payload st =
        (Inr None, st\<lparr>highlights := ws, viewMode := Content\<rparr>) \<and>
      highlights (snd (classroom_highlight_text payload st)) = ws \<and>
      boardHighlights (snd (board_highlight_text payload b)) = ws) \<and>
   (get_prop payload ''words'' = Inr (Some (JArr [])) \<longrightarrow>
      highlights (snd (classroom_highlight_text payload st)) = JArr [] \<and>
      boardHighlights (snd (board_highlight_text payload b)) = JArr []) \<and>
   (get_prop payload ''words'' = Inr w \<and> \<not> truthy w \<longrightarrow>
      snd (classroom_highlight_text payload st) = st \<and>
      snd (board_highlight_text payload b) = b)"
  by (auto simp: classroom_highlight_text_def board_highlight_text_def split: option.splits)

theorem highlight_text_replaces_or_keeps_witness:
  "highlights (snd (classroom_highlight_text (JObj [(''words'', JArr [fox])])
      (initial_classroom\<lparr>highlights := JArr [fox, fox]\<rparr>))) = JArr [fox] \<and>
   boardHighlights (snd (board_highlight_text (JObj [(''words'', JArr [])])
      (initial_board\<lparr>boardHighlights := JArr [fox]\<rparr>))) = JArr [] \<and>
   snd (classroom_highlight_text (JObj [(''words'', JStr [])])
      (initial_classroom\<lparr>highlights := JArr [fox]\<rparr>)) =
     initial_classroom\<lparr>highlights := JArr [fox]\<rparr>"
  using
    highlight_text_replaces_or_keeps [of "JObj [(''words'', JArr [fox])]" "JArr [fox]"
      "initial_classroom\<lparr>highlights := JArr [fox, fox]\<rparr>" initial_board "Some (JArr [fox])"]
    highlight_text_replaces_or_keeps [of "JObj [(''words'', JArr [])]" "JArr []"
      initial_classroom "initial_board\<lparr>boardHighlights := JArr [fox]\<rparr>" "Some (JArr [])"]
    highlight_text_replaces_or_keeps [of "JObj [(''words'', JStr [])]" "JStr []"
      "initial_classroom\<lparr>highlights := JArr [fox]\<rparr>" initial_board "Some (JStr [])"]
  by simp

section \<open>The \<^verbatim>\<open>update_content\<close> rules\<close>

text \<open>
  A truthy \<^verbatim>\<open>text\<close> replaces the content, empties the highlight set and shows the
  content view on the classroom page.
\<close>

lemma classroom_update_content_truthy:
  "get_prop payload ''text'' = Inr (Some t) \<Longrightarrow> truthy (Some t) \<Longrightarrow>
   classroom_update_content payload st =
     (Inr None, st\<lparr>content := t, highlights := JArr [], viewMode := Content\<rparr>)"
  by (simp add: classroom_update_content_def)

text \<open>On the talk page every present \<^verbatim>\<open>text\<close> replaces the board text.\<close>

lemma board_update_content_present:
  "get_prop payload ''text'' = Inr (Some t) \<Longrightarrow>
   snd (board_update_content payload b) = b\<lparr>boardText := t, boardHighlights := JArr []\<rparr>"
  by (simp add: board_update_content_def)

text \<open>A call that changes the content leaves no highlight behind.\<close>

lemma classroom_update_content_changes_clear:
  "content (snd (classroom_update_content payload st)) \<noteq> content st \<Longrightarrow>
   highlights (snd (classroom_update_content payload st)) = JArr []"
  by (auto simp: classroom_update_content_def split: sum.splits option.splits if_splits)

text \<open>
  Claim C4 says that every present \<^verbatim>\<open>text\<close>, the empty string included, replaces the
  content, empties the highlight set and switches the view to the content. The talk-page
  rule tests \<^verbatim>\<open>payload.text !== undefined\<close> and does so; the classroom rule tests
  \<^verbatim>\<open>if (payload.text)\<close>, and on the payload \<^verbatim>\<open>{"text": ""}\<close> it changes nothing: the old
  content and its highlights stay.
\<close>

theorem update_content_empty_text:
  "classroom_update_content (JObj [(''text'', JStr [])]) st = (Inr None, st) \<and>
   snd (board_update_content (JObj [(''text'', JStr [])]) b) =
     b\<lparr>boardText := JStr [], boardHighlights := JArr []\<rparr>"
  by (simp add: classroom_update_content_def board_update_content_def)

text \<open>
  The two rules agree on the content and the highlight set whenever \<^verbatim>\<open>text\<close> is absent
  or truthy, and both throw on the payload \<^verbatim>\<open>null\<close>.
\<close>

lemma update_content_rules_agree:
  "classroom_view st = board_view b \<Longrightarrow> get_prop payload ''text'' = Inr t \<Longrightarrow>
   t = None \<or> truthy t \<Longrightarrow>
   classroom_view (snd (classroom_update_content payload st)) =
     board_view (snd (board_update_content payload b))"
  by (auto simp: classroom_update_content_def board_update_content_def classroom_view_def
      board_view_def split: option.splits)

lemma update_content_rules_null:
  "classroom_update_content JNull st = (Inl TypeError, st) \<and>
   board_update_content JNull b = (Inl TypeError, b)"
  by (simp add: classroom_update_content_def board_update_content_def)

text \<open>
  Claim C10 says that the talk-page rule and the classroom rule for \<^verbatim>\<open>update_content\<close>
  give the same content and highlight set from the same start on every payload. From
  the same content and the highlight set \<^verbatim>\<open>[fox]\<close>, the payload \<^verbatim>\<open>{"text": ""}\<close> leaves
  the classroom page as it was and empties the board of the talk page.
\<close>

theorem update_content_rules_differ:
  "classroom_view (initial_classroom\<lparr>highlights := JArr [fox]\<rparr>) =
     board_view \<lparr>boardText = content initial_classroom, boardHighlights = JArr [fox]\<rparr> \<and>
   classroom_view (snd (classroom_update_content (JObj [(''text'', JStr [])])
       (initial_classroom\<lparr>highlights := JArr [fox]\<rparr>))) =
     (content initial_classroom, JArr [fox]) \<and>
   board_view (snd (board_update_content (JObj [(''text'', JStr [])])
       \<lparr>boardText = content initial_classroom, boardHighlights = JArr [fox]\<rparr>)) =
     (JStr [], JArr []) \<and>
   (content initial_classroom, JArr [fox]) \<noteq> (JStr [], JArr [])"
  by (simp add: classroom_update_content_def board_update_content_def classroom_view_def
      board_view_def initial_classroom_def)

section \<open>The \<^verbatim>\<open>reveal_answer\<close> rule\<close>

lemma js_index_valid: "i < length xs \<Longrightarrow> js_index xs (of_nat i) = Some (xs ! i)"
  by (simp add: js_index_def)

lemma js_index_Some:
  "js_index xs r = Some a \<Longrightarrow> r = of_nat (nat \<lfloor>r\<rfloor>) \<and> nat \<lfloor>r\<rfloor> < length xs"
  by (auto simp: js_index_def split: if_splits)

lemma length_reveal_at: "length (reveal_at r prev) = length prev"
  by (simp add: reveal_at_def split: option.splits)

lemma reveal_at_valid:
  "i < length prev \<Longrightarrow> reveal_at (of_nat i) prev = prev[i := (prev ! i)\<lparr>revealed := True\<rparr>]"
  by (simp add: reveal_at_def js_index_valid)

lemma reveal_at_invalid:
  "\<not> (\<exists>i<length prev. r = of_nat i) \<Longrightarrow> reveal_at r prev = prev"
  using js_index_Some [of prev r] by (auto simp: reveal_at_def split: option.splits)

text \<open>
  For a numeric \<^verbatim>\<open>index\<close> the rule does not throw; when the number is a valid index of
  the answers, that answer is revealed, keeps its text and percentage, and every other
  answer is as before; when it is not (too large, negative or fractional), the answers
  are exactly as before.
\<close>

lemma reveal_answer_index:
  assumes "get_prop payload ''index'' = Inr (Some (JNum r))"
  shows "fst (reveal_answer payload st) = Inr None \<and>
         length (cognitiveAnswers (snd (reveal_answer payload st))) =
           length (cognitiveAnswers st) \<and>
         (\<forall>i<length (cognitiveAnswers st). r = of_nat i \<longrightarrow>
            revealed (cognitiveAnswers (snd (reveal_answer payload st)) ! i) \<and>
            answer_text (cognitiveAnswers (snd (reveal_answer payload st)) ! i) =
              answer_text (cognitiveAnswers st ! i) \<and>
            percentage (cognitiveAnswers (snd (reveal_answer payload st)) ! i) =
              percentage (cognitiveAnswers st ! i) \<and>
            (\<forall>j<length (cognitiveAnswers st). j \<noteq> i \<longrightarrow>
               cognitiveAnswers (snd (reveal_answer payload st)) ! j =
                 cognitiveAnswers st ! j)) \<and>
         (\<not> (\<exists>i<length (cognitiveAnswers st). r = of_nat i) \<longrightarrow>
            cognitiveAnswers (snd (reveal_answer payload st)) = cognitiveAnswers st)"
  using assms
  by (auto simp: reveal_answer_def reveal_at_valid reveal_at_invalid length_reveal_at)

lemma reveal_answer_index_example:
  "revealed (cognitiveAnswers (snd (reveal_answer (JObj [(''index'', JNum 1)])
       (initial_classroom\<lparr>cognitiveAnswers := two_answers\<rparr>))) ! 1) \<and>
   cognitiveAnswers (snd (reveal_answer (JObj [(''index'', JNum 1)])
       (initial_classroom\<lparr>cognitiveAnswers := two_answers\<rparr>))) ! 0 = two_answers ! 0 \<and>
   fst (reveal_answer (JObj [(''index'', JNum 2)])
       (initial_classroom\<lparr>cognitiveAnswers := two_answers\<rparr>)) = Inr None \<and>
   cognitiveAnswers (snd (reveal_answer (JObj [(''index'', JNum 2)])
       (initial_classroom\<lparr>cognitiveAnswers := two_answers\<rparr>))) = two_answers \<and>
   cognitiveAnswers (snd (reveal_answer (JObj [(''index'', JNum (- 1))])
       (initial_classroom\<lparr>cognitiveAnswers := two_answers\<rparr>))) = two_answers \<and>
   cognitiveAnswers (snd (reveal_answer (JObj [(''index'', JNum (1 / 2))])
       (initial_classroom\<lparr>cognitiveAnswers := two_answers\<rparr>))) = two_answers"
proof -
  let ?st = "initial_classroom\<lparr>cognitiveAnswers := two_answers\<rparr>"
  have len: "length (cognitiveAnswers ?st) = 2"
    by (simp add: two_answers_def)
  have a: "get_prop (JObj [(''index'', JNum r)]) ''index'' = Inr (Some (JNum r))" for r
    by simp
  have n2: "\<not> (\<exists>i<length (cognitiveAnswers ?st). (2::rat) = of_nat i)"
    unfolding len by (auto simp: less_Suc_eq numeral_2_eq_2)
  have nm: "\<not> (\<exists>i<length (cognitiveAnswers ?st). (- 1::rat) = of_nat i)"
    unfolding len by (auto simp: less_Suc_eq numeral_2_eq_2)
  have nh: "\<not> (\<exists>i<length (cognitiveAnswers ?st). (1 / 2::rat) = of_nat i)"
    unfolding len by (auto simp: less_Suc_eq numeral_2_eq_2)
  show ?thesis
    using reveal_answer_index [OF a [of 1], of ?st] reveal_answer_index [OF a [of 2], of ?st]
      reveal_answer_index [OF a [of "- 1"], of ?st] reveal_answer_index [OF a [of "1 / 2"], of ?st]
      n2 nm nh len
    by (simp add: two_answers_def)
qed

text \<open>
  The reveal sound is played for every numeric \<^verbatim>\<open>index\<close>: \<^verbatim>\<open>playReveal()\<close> stands
  after the state update, outside the test \<^verbatim>\<open>if (newAnswers[index])\<close>.
\<close>

lemma reveal_answer_plays_cue:
  "get_prop payload ''index'' = Inr (Some (JNum r)) \<Longrightarrow>
   sounds (snd (reveal_answer payload st)) = sounds st @ [Reveal]"
  by (simp add: reveal_answer_def)

text \<open>
  Claim C8 says that a valid numeric index reveals that answer and that an index outside
  the answers is a no-op: no error, no revealed flag changed. With two answers loaded
  the index \<open>2\<close> throws nothing and leaves the answers as they were, but the call is
  not a no-op: the reveal sound is played although nothing was revealed.
\<close>

theorem reveal_answer_invalid_index_not_noop:
  "length (cognitiveAnswers busy_classroom) = 2 \<and>
   reveal_answer (JObj [(''index'', JNum 2)]) busy_classroom =
     (Inr None, busy_classroom\<lparr>sounds := [Reveal]\<rparr>) \<and>
   cognitiveAnswers (snd (reveal_answer (JObj [(''index'', JNum 2)]) busy_classroom)) =
     cognitiveAnswers busy_classroom \<and>
   sounds busy_classroom = [] \<and>
   snd (reveal_answer (JObj [(''index'', JNum 2)]) busy_classroom) \<noteq> busy_classroom"
proof -
  have n: "js_index two_answers 2 = None"
    by (simp add: js_index_def two_answers_def)
  have r: "reveal_answer (JObj [(''index'', JNum 2)]) busy_classroom =
     (Inr None, busy_classroom\<lparr>sounds := [Reveal]\<rparr>)"
    by (simp add: reveal_answer_def reveal_at_def n busy_classroom_def initial_classroom_def)
  have s: "sounds busy_classroom = []"
    by (simp add: busy_classroom_def initial_classroom_def)
  have d: "busy_classroom\<lparr>sounds := [Reveal]\<rparr> \<noteq> busy_classroom"
  proof
    assume "busy_classroom\<lparr>sounds := [Reveal]\<rparr> = busy_classroom"
    then have "sounds (busy_classroom\<lparr>sounds := [Reveal]\<rparr>) = sounds busy_classroom"
      by simp
    with s show False by simp
  qed
  show ?thesis
    unfolding r using s d by (simp add: busy_classroom_def two_answers_def)
qed

section \<open>Defensiveness of the classroom rules\<close>

lemma get_prop_not_null: "payload \<noteq> JNull \<Longrightarrow> \<exists>v. get_prop payload k = Inr v"
  by (cases payload) simp_all

lemma init_answers_no_null: "JNull \<notin> set xs \<Longrightarrow> \<exists>ans. init_answers xs = Inr ans"
proof (induction xs)
  case Nil
  then show ?case by simp
next
  case (Cons a xs)
  then obtain ans where "init_answers xs = Inr ans" by auto
  moreover from Cons.prems have "a \<noteq> JNull" by auto
  then obtain t p where "get_prop a ''text'' = Inr t" "get_prop a ''percentage'' = Inr p"
    using get_prop_not_null by blast
  ultimately show ?case by simp
qed

lemma rules_no_raise:
  assumes "payload \<noteq> JNull" "m \<noteq> StartCognitiveTest"
  shows "\<exists>r. fst (classroom_rule m payload st) = Inr r"
proof -
  have v: "\<exists>v. get_prop payload k = Inr v" for k
    using get_prop_not_null [OF assms(1)] by blast
  show ?thesis
  proof (cases m)
    case HighlightText
    then show ?thesis using v [of "''words''"]
      by (auto simp: classroom_highlight_text_def split: option.splits)
  next
    case UpdateContent
    then show ?thesis using v [of "''text''"]
      by (auto simp: classroom_update_content_def split: option.splits)
  next
    case ShowStudentFocus
    then show ?thesis using v [of "''studentName''"]
      by (auto simp: show_student_focus_def split: option.splits)
  next
    case StartCognitiveTest
    then show ?thesis using assms by simp
  next
    case RevealAnswer
    then show ?thesis using v [of "''index''"]
      by (auto simp: reveal_answer_def split: option.splits json.splits)
  next
    case UpdateScores
    then show ?thesis using v [of "''scores''"]
      by (auto simp: update_scores_def split: option.splits)
  next
    case ShowErrorBuzzer
    then show ?thesis by (simp add: show_error_buzzer_def)
  qed
qed

lemma start_cognitive_test_no_raise:
  assumes "payload \<noteq> JNull"
    and "\<And>a. get_prop payload ''answers'' = Inr (Some a) \<Longrightarrow> truthy (Some a) \<Longrightarrow>
           \<exists>xs. a = JArr xs \<and> JNull \<notin> set xs"
  shows "\<exists>r. fst (start_cognitive_test payload st) = Inr r"
proof -
  obtain q where q: "get_prop payload ''question'' = Inr q"
    using get_prop_not_null [OF assms(1)] by blast
  obtain a where a: "get_prop payload ''answers'' = Inr a"
    using get_prop_not_null [OF assms(1)] by blast
  show ?thesis
  proof (cases "truthy q \<and> truthy a")
    case False
    then show ?thesis using q a
      by (auto simp: start_cognitive_test_def split: option.splits)
  next
    case True
    then obtain q' a' where qa: "q = Some q'" "a = Some a'"
      by (cases q; cases a) auto
    with assms(2) a True obtain xs where xs: "a' = JArr xs" "JNull \<notin> set xs" by blast
    then obtain ans where "init_answers xs = Inr ans" using init_answers_no_null by blast
    then show ?thesis using q a qa xs True
      by (simp add: start_cognitive_test_def)
  qed
qed

lemma rules_field_unchanged:
  assumes "payload \<noteq> JNull" "k \<in> set (required_fields m)" "get_prop payload k = Inr v"
    "\<not> usable m v" "m \<noteq> UpdateContent \<or> v = None"
  shows "classroom_rule m payload st = (Inr None, st)"
proof (cases m)
  case HighlightText
  then show ?thesis using assms
    by (auto simp: classroom_highlight_text_def usable_def split: option.splits)
next
  case UpdateContent
  then show ?thesis using assms
    by (auto simp: classroom_update_content_def)
next
  case ShowStudentFocus
  then show ?thesis using assms
    by (auto simp: show_student_focus_def usable_def split: option.splits)
next
  case StartCognitiveTest
  obtain q where q: "get_prop payload ''question'' = Inr q"
    using get_prop_not_null [OF assms(1)] by blast
  obtain a where a: "get_prop payload ''answers'' = Inr a"
    using get_prop_not_null [OF assms(1)] by blast
  from StartCognitiveTest assms q a have "\<not> truthy q \<or> \<not> truthy a"
    by (auto simp: usable_def)
  then show ?thesis using StartCognitiveTest q a
    by (auto simp: start_cognitive_test_def split: option.splits)
next
  case RevealAnswer
  then show ?thesis using assms
    by (cases v rule: is_number.cases) (auto simp: reveal_answer_def usable_def)
next
  case UpdateScores
  then show ?thesis using assms
    by (auto simp: update_scores_def usable_def split: option.splits)
next
  case ShowErrorBuzzer
  then show ?thesis using assms by simp
qed

lemma rules_null_raise:
  "m \<noteq> ShowErrorBuzzer \<Longrightarrow> classroom_rule m JNull st = (Inl TypeError, st)"
  by (cases m)
    (simp_all add: classroom_highlight_text_def classroom_update_content_def
      show_student_focus_def start_cognitive_test_def reveal_answer_def update_scores_def)

text \<open>
  Claim C3 as the specification states it says that no rule throws on any decoded
  payload and that a malformed field leaves the state unchanged. The payload text
  \<^verbatim>\<open>null\<close> decodes to \<^verbatim>\<open>null\<close>, and reading \<^verbatim>\<open>payload.words\<close> throws a TypeError, which
  the registered wrapper throws again; and \<^verbatim>\<open>start_cognitive_test\<close> with a string for
  \<^verbatim>\<open>answers\<close> throws after it has replaced the question.
\<close>

theorem rules_throw_on_null_payload:
  "decode parse_null ''null'' = JNull \<and>
   classroom_rule HighlightText JNull initial_classroom = (Inl TypeError, initial_classroom) \<and>
   fst (invoke parse_null stringify_any (fresh (classroom_rule HighlightText)) ''null''
      initial_classroom) = Inl TypeError \<and>
   fst (classroom_rule StartCognitiveTest
      (JObj [(''question'', JStr ''Capital?''), (''answers'', JStr ''Paris'')])
      initial_classroom) = Inl TypeError \<and>
   cognitiveQuestion (snd (classroom_rule StartCognitiveTest
      (JObj [(''question'', JStr ''Capital?''), (''answers'', JStr ''Paris'')])
      initial_classroom)) = JStr ''Capital?'' \<and>
   cognitiveQuestion initial_classroom = JStr []"
  by (simp add: decode_def parse_null_def classroom_highlight_text_def invoke_def fresh_def
      start_cognitive_test_def initial_classroom_def)

text \<open>The rules of the talk page: none throws on a payload other than \<^verbatim>\<open>null\<close>.\<close>

lemma board_rules_no_raise:
  assumes "payload \<noteq> JNull"
  shows "\<exists>r. fst (board_rule bm payload b) = Inr r"
proof -
  have v: "\<exists>v. get_prop payload k = Inr v" for k
    using get_prop_not_null [OF assms] by blast
  show ?thesis
  proof (cases bm)
    case BoardUpdateContent
    then show ?thesis using v [of "''text''"]
      by (auto simp: board_update_content_def split: option.splits)
  next
    case BoardHighlightText
    then show ?thesis using v [of "''words''"]
      by (auto simp: board_highlight_text_def split: option.splits)
  next
    case ClearBoard
    then show ?thesis by (simp add: clear_board_def)
  next
    case BoardShowStudentFocus
    then show ?thesis by (simp add: board_show_student_focus_def)
  qed
qed

lemma board_rules_absent_unchanged:
  assumes "k \<in> set (board_required_fields bm)" "get_prop payload k = Inr None"
  shows "snd (board_rule bm payload b) = b"
  using assms
  by (cases bm) (auto simp: board_update_content_def board_highlight_text_def)

lemma board_words_falsy_unchanged:
  "get_prop payload ''words'' = Inr v \<Longrightarrow> \<not> truthy v \<Longrightarrow>
   snd (board_rule BoardHighlightText payload b) = b"
  by (auto simp: board_highlight_text_def split: option.splits)

lemma board_rules_null:
  "(board_required_fields bm \<noteq> [] \<longrightarrow> board_rule bm JNull b = (Inl TypeError, b)) \<and>
   (board_required_fields bm = [] \<longrightarrow> (\<exists>r. fst (board_rule bm JNull b) = Inr r))"
  by (cases bm)
    (simp_all add: board_update_content_def board_highlight_text_def clear_board_def
      board_show_student_focus_def)

text \<open>
  Claim C3, amended: on every decoded payload other than \<^verbatim>\<open>null\<close>, every rule of
  either page returns without throwing, provided for \<^verbatim>\<open>start_cognitive_test\<close> that a
  truthy \<^verbatim>\<open>answers\<close> is an array without \<^verbatim>\<open>null\<close> elements; when a required field is
  absent the rule leaves the state unchanged, and so it does when \<^verbatim>\<open>words\<close>,
  \<^verbatim>\<open>studentName\<close>, \<^verbatim>\<open>question\<close>, \<^verbatim>\<open>answers\<close> or \<^verbatim>\<open>scores\<close> is present but falsy or
  \<^verbatim>\<open>index\<close> is not a number (nothing is said of a \<^verbatim>\<open>text\<close> that is present). On the
  payload \<^verbatim>\<open>null\<close> the rules that read a field throw a TypeError and leave the state
  unchanged; \<^verbatim>\<open>show_error_buzzer\<close>, \<^verbatim>\<open>clear_board\<close> and the talk page's
  \<^verbatim>\<open>show_student_focus\<close>, which read nothing, return.
\<close>

theorem rules_defensive:
  "(payload \<noteq> JNull \<and> m \<noteq> StartCognitiveTest \<longrightarrow>
      (\<exists>r. fst (classroom_rule m payload st) = Inr r)) \<and>
   (payload \<noteq> JNull \<and>
    (\<forall>a. get_prop payload ''answers'' = Inr (Some a) \<and> truthy (Some a) \<longrightarrow>
       (\<exists>xs. a = JArr xs \<and> JNull \<notin> set xs)) \<longrightarrow>
      (\<exists>r. fst (classroom_rule StartCognitiveTest payload st) = Inr r)) \<and>
   (payload \<noteq> JNull \<longrightarrow> (\<exists>r. fst (board_rule bm payload b) = Inr r)) \<and>
   (payload \<noteq> JNull \<and> k \<in> set (required_fields m) \<and> get_prop payload k = Inr None \<longrightarrow>
      classroom_rule m payload st = (Inr None, st)) \<and>
   (k \<in> set (board_required_fields bm) \<and> get_prop payload k = Inr None \<longrightarrow>
      snd (board_rule bm payload b) = b) \<and>
   (payload \<noteq> JNull \<and> m \<noteq> UpdateContent \<and> k \<in> set (required_fields m) \<and>
    get_prop payload k = Inr v \<and> \<not> usable m v \<longrightarrow>
      classroom_rule m payload st = (Inr None, st)) \<and>
   (get_prop payload ''words'' = Inr v \<and> \<not> truthy v \<longrightarrow>
      snd (board_rule BoardHighlightText payload b) = b) \<and>
   (m \<noteq> ShowErrorBuzzer \<longrightarrow> classroom_rule m JNull st = (Inl TypeError, st)) \<and>
   (board_required_fields bm \<noteq> [] \<longrightarrow> board_rule bm JNull b = (Inl TypeError, b)) \<and>
   (\<exists>r. fst (classroom_rule ShowErrorBuzzer JNull st) = Inr r) \<and>
   (board_required_fields bm = [] \<longrightarrow> (\<exists>r. fst (board_rule bm JNull b) = Inr r))"
proof (intro conjI impI)
  show "\<exists>r. fst (classroom_rule m payload st) = Inr r"
    if "payload \<noteq> JNull \<and> m \<noteq> StartCognitiveTest"
    using that rules_no_raise by blast
  show "\<exists>r. fst (classroom_rule StartCognitiveTest payload st) = Inr r"
    if "payload \<noteq> JNull \<and>
      (\<forall>a. get_prop payload ''answers'' = Inr (Some a) \<and> truthy (Some a) \<longrightarrow>
         (\<exists>xs. a = JArr xs \<and> JNull \<notin> set xs))"
    using that start_cognitive_test_no_raise [of payload st] by simp
  show "\<exists>r. fst (board_rule bm payload b) = Inr r" if "payload \<noteq> JNull"
    using that by (rule board_rules_no_raise)
  show "classroom_rule m payload st = (Inr None, st)"
    if "payload \<noteq> JNull \<and> k \<in> set (required_fields m) \<and> get_prop payload k = Inr None"
    using that rules_field_unchanged [of payload k m None st] by (simp add: usable_def)
  show "snd (board_rule bm payload b) = b"
    if "k \<in> set (board_required_fields bm) \<and> get_prop payload k = Inr None"
    using that board_rules_absent_unchanged by blast
  show "classroom_rule m payload st = (Inr None, st)"
    if "payload \<noteq> JNull \<and> m \<noteq> UpdateContent \<and> k \<in> set (required_fields m) \<and>
      get_prop payload k = Inr v \<and> \<not> usable m v"
    using that rules_field_unchanged [of payload k m v st] by simp
  show "snd (board_rule BoardHighlightText payload b) = b"
    if "get_prop payload ''words'' = Inr v \<and> \<not> truthy v"
    using that board_words_falsy_unchanged by blast
  show "classroom_rule m JNull st = (Inl TypeError, st)" if "m \<noteq> ShowErrorBuzzer"
    using that by (rule rules_null_raise)
  show "board_rule bm JNull b = (Inl TypeError, b)" if "board_required_fields bm \<noteq> []"
    using that board_rules_null by blast
  show "\<exists>r. fst (classroom_rule ShowErrorBuzzer JNull st) = Inr r"
    by (simp add: show_error_buzzer_def)
  show "\<exists>r. fst (board_rule bm JNull b) = Inr r" if "board_required_fields bm = []"
    using that board_rules_null by blast
qed


theorem rules_defensive_witness:
  "classroom_rule HighlightText (JObj [(''words'', JStr [])]) busy_classroom =
     (Inr None, busy_classroom) \<and>
   snd (board_rule BoardHighlightText (JObj [(''words'', JStr [])]) busy_board) = busy_board \<and>
   classroom_rule RevealAnswer (JObj [(''index'', JStr ''1'')]) busy_classroom =
     (Inr None, busy_classroom) \<and>
   (\<exists>r. fst (classroom_rule StartCognitiveTest
      (JObj [(''question'', JStr ''Capital?''),
             (''answers'', JArr [JObj [(''text'', JStr ''Paris''), (''percentage'', JNum 60)]])])
      busy_classroom) = Inr r) \<and>
   classroom_rule UpdateContent (JObj []) busy_classroom = (Inr None, busy_classroom) \<and>
   snd (board_rule BoardUpdateContent (JObj []) busy_board) = busy_board \<and>
   (\<exists>r. fst (board_rule BoardUpdateContent (JObj [(''text'', JNum 5)]) busy_board) = Inr r) \<and>
   classroom_rule UpdateScores JNull busy_classroom = (Inl TypeError, busy_classroom) \<and>
   board_rule BoardUpdateContent JNull busy_board = (Inl TypeError, busy_board) \<and>
   (\<exists>r. fst (board_rule ClearBoard JNull busy_board) = Inr r)"
proof -
  let ?w = "JObj [(''words'', JStr [])]"
  let ?i = "JObj [(''index'', JStr ''1'')]"
  let ?q = "JObj [(''question'', JStr ''Capital?''),
      (''answers'', JArr [JObj [(''text'', JStr ''Paris''), (''percentage'', JNum 60)]])]"
  note a = rules_defensive [of ?w HighlightText busy_classroom BoardHighlightText busy_board
      "''words''" "Some (JStr [])"]
  note b = rules_defensive [of ?i RevealAnswer busy_classroom ClearBoard busy_board
      "''index''" "Some (JStr ''1'')"]
  note c = rules_defensive [of ?q StartCognitiveTest busy_classroom BoardUpdateContent busy_board
      "''question''" None]
  note d = rules_defensive [of "JObj []" UpdateContent busy_classroom BoardUpdateContent busy_board
      "''text''" None]
  note e = rules_defensive [of "JObj [(''text'', JNum 5)]" UpdateScores busy_classroom
      BoardUpdateContent busy_board "''scores''" None]
  have 1: "classroom_rule HighlightText ?w busy_classroom = (Inr None, busy_classroom)"
    using a by (simp add: usable_def)
  have 2: "snd (board_rule BoardHighlightText ?w busy_board) = busy_board"
    using a by simp
  have 3: "classroom_rule RevealAnswer ?i busy_classroom = (Inr None, busy_classroom)"
    using b by (simp add: usable_def)
  have 4: "\<exists>r. fst (classroom_rule StartCognitiveTest ?q busy_classroom) = Inr r"
    using c by simp
  have 5: "classroom_rule UpdateContent (JObj []) busy_classroom = (Inr None, busy_classroom)"
    using d by simp
  have 6: "snd (board_rule BoardUpdateContent (JObj []) busy_board) = busy_board"
    using d by simp
  have 7: "\<exists>r. fst (board_rule BoardUpdateContent (JObj [(''text'', JNum 5)]) busy_board) = Inr r"
    using e by simp
  have 8: "classroom_rule UpdateScores JNull busy_classroom = (Inl TypeError, busy_classroom)"
    using e by simp
  have 9: "board_rule BoardUpdateContent JNull busy_board = (Inl TypeError, busy_board)"
    using e by simp
  have 10: "\<exists>r. fst (board_rule ClearBoard JNull busy_board) = Inr r"
    using b by simp
  show ?thesis
    using 1 2 3 4 5 6 7 8 9 10 by (intro conjI)
qed

section \<open>The \<^verbatim>\<open>show_student_focus\<close> rule and its timers\<close>

text \<open>
  After \<open>d\<close> milliseconds the pending timeouts are those whose due time lies still
  ahead: one that has fired is gone, one that has not is kept.
\<close>

lemma timers_advance: "timers (advance d st) = filter (\<lambda>x. now st + d < x) (timers st)"
  by (simp add: advance_def Let_def)

lemma focus_advance:
  "focusedStudent (advance d st) =
     (if \<exists>x\<in>set (timers st). x \<le> now st + d then JNull else focusedStudent st)"
  by (auto simp: advance_def Let_def filter_empty_conv)

text \<open>
  Claim C2 as the specification states it says that a second focus call arriving before
  the pending auto-clear fires cancels it, so that at most one auto-clear is pending and
  it belongs to the latest student. The handler calls \<^verbatim>\<open>setTimeout\<close> and keeps no handle
  to cancel: after Karan at time \<open>0\<close> and Meera at time \<open>3000\<close> two auto-clears are
  pending, and the first one clears the focus at time \<open>5000\<close>, leaving the second one
  pending.
\<close>

theorem focus_timers_stack:
  "now karan_then_meera = 3000 \<and>
   focusedStudent karan_then_meera = JStr ''Meera'' \<and>
   timers karan_then_meera = [5000, 8000] \<and>
   focusedStudent (advance 2000 karan_then_meera) = JNull \<and>
   now (advance 2000 karan_then_meera) = 5000 \<and>
   timers (advance 2000 karan_then_meera) = [8000]"
  by (simp add: karan_then_meera_def show_student_focus_def advance_def initial_classroom_def)

text \<open>
  Claim C2, amended: every call with a present, truthy \<^verbatim>\<open>studentName\<close> sets the focused
  entity and schedules one auto-clear \<open>5000\<close> milliseconds later, next to the auto-clears
  already pending, none of which is cancelled; that auto-clear stays pending until its
  due time, and once the time is reached it has fired, the focus is \<^verbatim>\<open>null\<close>, and it is
  pending no longer.
\<close>

theorem show_student_focus_schedules:
  assumes "get_prop payload ''studentName'' = Inr (Some n)" and "truthy (Some n)"
  shows "show_student_focus payload st =
           (Inr None, st\<lparr>focusedStudent := n, timers := timers st @ [now st + 5000]\<rparr>) \<and>
         (\<forall>d<5000. now st + 5000 \<in> set (timers (advance d (snd (show_student_focus payload st)))) \<and>
            (\<forall>x\<in>set (timers st). now st + d < x \<longrightarrow>
               x \<in> set (timers (advance d (snd (show_student_focus payload st)))))) \<and>
         (\<forall>d\<ge>5000. now st + 5000 \<notin> set (timers (advance d (snd (show_student_focus payload st)))) \<and>
            focusedStudent (advance d (snd (show_student_focus payload st))) = JNull)"
  using assms by (auto simp: show_student_focus_def timers_advance focus_advance)

theorem show_student_focus_schedules_witness:
  "show_student_focus (JObj [(''studentName'', JStr ''Meera'')])
      (advance 3000 (snd (show_student_focus (JObj [(''studentName'', JStr ''Karan'')])
         initial_classroom))) =
     (Inr None, karan_then_meera) \<and>
   focusedStudent karan_then_meera = JStr ''Meera'' \<and>
   timers karan_then_meera = [5000, 8000] \<and>
   5000 \<in> set (timers (advance 1000 karan_then_meera)) \<and>
   8000 \<in> set (timers (advance 1000 karan_then_meera)) \<and>
   8000 \<notin> set (timers (advance 5000 karan_then_meera)) \<and>
   focusedStudent (advance 5000 karan_then_meera) = JNull"
proof -
  let ?p = "JObj [(''studentName'', JStr ''Meera'')]"
  let ?st = "advance 3000 (snd (show_student_focus (JObj [(''studentName'', JStr ''Karan'')])
      initial_classroom))"
  have a: "get_prop ?p ''studentName'' = Inr (Some (JStr ''Meera''))"
    by simp
  have b: "truthy (Some (JStr ''Meera''))"
    by simp
  have c: "now ?st = 3000" "timers ?st = [5000]"
    by (simp_all add: show_student_focus_def advance_def initial_classroom_def)
  have k: "snd (show_student_focus ?p ?st) = karan_then_meera"
    by (simp add: karan_then_meera_def)
  note t = show_student_focus_schedules [OF a b, of ?st]
  have v: "karan_then_meera = ?st\<lparr>focusedStudent := JStr ''Meera'', timers := [5000, 8000]\<rparr>"
    using t [THEN conjunct1] k c by simp
  have t1: "show_student_focus ?p ?st = (Inr None, karan_then_meera)"
    using t [THEN conjunct1] v c by simp
  have t0: "focusedStudent karan_then_meera = JStr ''Meera'' \<and>
      timers karan_then_meera = [5000, 8000]"
    unfolding v by simp
  have t2: "5000 \<in> set (timers (advance 1000 karan_then_meera)) \<and>
      8000 \<in> set (timers (advance 1000 karan_then_meera))"
    using t [THEN conjunct2, THEN conjunct1, rule_format, of 1000] unfolding k c by simp
  have t3: "8000 \<notin> set (timers (advance 5000 karan_then_meera)) \<and>
      focusedStudent (advance 5000 karan_then_meera) = JNull"
    using t [THEN conjunct2, THEN conjunct2, rule_format, of 5000] unfolding k c by simp
  show ?thesis
    using t0 t1 t2 t3 by (intro conjI) (rule t1, simp_all)
qed

section \<open>The highlight matcher\<close>

text \<open>Splitting loses no text: the parts, put together again, are the input.\<close>

lemma concat_split_loop: "concat (split_loop alts acc rest) = acc @ rest"
  by (induction alts acc rest rule: split_loop.induct) (auto split: option.splits)

lemma fragment_text_render_part: "fragment_text (render_part hls part) = part"
  by (simp add: render_part_def split: option.splits)

lemma rendered_text_split: "rendered_text (splitTextOnHighlights text hls) = text"
proof (cases "hls = [] \<or> text = []")
  case True
  then show ?thesis by (auto simp: splitTextOnHighlights_def)
next
  case False
  have "map (fragment_text \<circ> render_part hls) parts = parts" for parts
    by (induction parts) (simp_all add: fragment_text_render_part)
  with False show ?thesis
    by (simp add: splitTextOnHighlights_def regexp_split_def concat_split_loop)
qed

text \<open>
  An escaped word, read as a pattern, matches the word itself: the alternatives of the
  pattern are the highlight words.
\<close>

lemma literal_of_plain: "c \<noteq> CHR 0x5C \<Longrightarrow> literal_of (c # s) = c # literal_of s"
  by (cases s) simp_all

lemma escapeRegExp_Cons:
  "escapeRegExp (c # w) = (if regexp_special c then [CHR 0x5C, c] else [c]) @ escapeRegExp w"
  by (simp add: escapeRegExp_def)

lemma literal_of_escapeRegExp: "literal_of (escapeRegExp w) = w"
proof (induction w)
  case Nil
  then show ?case by (simp add: escapeRegExp_def)
next
  case (Cons c w)
  show ?case
  proof (cases "regexp_special c")
    case True
    with Cons show ?thesis by (simp add: escapeRegExp_Cons)
  next
    case False
    then have "c \<noteq> CHR 0x5C" by (auto simp: regexp_special_def)
    with Cons False show ?thesis by (simp add: escapeRegExp_Cons literal_of_plain)
  qed
qed

lemma alternatives_words: "alternatives hls = map word hls"
  by (simp add: alternatives_def literal_of_escapeRegExp)

text \<open>
  Claim C6: with no term the result is the input text itself, for every text; and for
  the text \<^verbatim>\<open>The cat sat\<close> with the one term \<^verbatim>\<open>cat\<close> of type \<^verbatim>\<open>noun\<close> the parts are
  \<^verbatim>\<open>The \<close>, the marked \<^verbatim>\<open>cat\<close> and \<^verbatim>\<open> sat\<close>: put together they are the input, and
  \<^verbatim>\<open>cat\<close> is the only marked part.
\<close>

theorem highlight_matcher_round_trip:
  "splitTextOnHighlights text [] = Text text \<and>
   rendered_text (splitTextOnHighlights text []) = text \<and>
   splitTextOnHighlights ''The cat sat'' [cat_noun] =
     Parts [Plain ''The '', Span \<lparr>color = DEFAULT_RED, style = Highlight\<rparr> ''cat'', Plain '' sat''] \<and>
   rendered_text (splitTextOnHighlights ''The cat sat'' [cat_noun]) = ''The cat sat'' \<and>
   spans (splitTextOnHighlights ''The cat sat'' [cat_noun]) = [''cat'']"
proof -
  have a: "splitTextOnHighlights text [] = Text text"
    by (simp add: splitTextOnHighlights_def)
  have b: "splitTextOnHighlights ''The cat sat'' [cat_noun] =
     Parts [Plain ''The '', Span \<lparr>color = DEFAULT_RED, style = Highlight\<rparr> ''cat'', Plain '' sat'']"
    by code_simp
  show ?thesis
    unfolding b a by simp
qed

text \<open>
  Claim C7 as the specification states it says that a term with a zero-length word is
  ignored: the output is that of the term list without it. Nothing in
  \<^verbatim>\<open>splitTextOnHighlights\<close> or \<^verbatim>\<open>escapeRegExp\<close> looks at the length of a word; the empty
  alternative matches between the characters, and the empty parts it captures are
  wrapped as matches of the zero-length term. On \<^verbatim>\<open>a cat\<close> the terms \<^verbatim>\<open>cat\<close> and the
  empty word give five parts, the term \<^verbatim>\<open>cat\<close> alone gives three.
\<close>

theorem empty_word_not_ignored:
  "splitTextOnHighlights ''a cat'' [cat_noun, empty_term] =
     Parts [Plain ''a'', Span \<lparr>color = DEFAULT_RED, style = Underline\<rparr> [], Plain '' '',
            Span \<lparr>color = DEFAULT_RED, style = Highlight\<rparr> ''cat'',
            Span \<lparr>color = DEFAULT_RED, style = Underline\<rparr> []] \<and>
   filter (\<lambda>h. word h \<noteq> []) [cat_noun, empty_term] = [cat_noun] \<and>
   splitTextOnHighlights ''a cat'' [cat_noun] =
     Parts [Plain ''a '', Span \<lparr>color = DEFAULT_RED, style = Highlight\<rparr> ''cat'', Plain []] \<and>
   splitTextOnHighlights ''a cat'' [cat_noun, empty_term] \<noteq>
     splitTextOnHighlights ''a cat'' (filter (\<lambda>h. word h \<noteq> []) [cat_noun, empty_term])"
proof -
  have a: "splitTextOnHighlights ''a cat'' [cat_noun, empty_term] =
     Parts [Plain ''a'', Span \<lparr>color = DEFAULT_RED, style = Underline\<rparr> [], Plain '' '',
            Span \<lparr>color = DEFAULT_RED, style = Highlight\<rparr> ''cat'',
            Span \<lparr>color = DEFAULT_RED, style = Underline\<rparr> []]"
    by code_simp
  have b: "filter (\<lambda>h. word h \<noteq> []) [cat_noun, empty_term] = [cat_noun]"
    by (simp add: cat_noun_def empty_term_def)
  have c: "splitTextOnHighlights ''a cat'' [cat_noun] =
     Parts [Plain ''a '', Span \<lparr>color = DEFAULT_RED, style = Highlight\<rparr> ''cat'', Plain []]"
    by code_simp
  show ?thesis
    unfolding b a c by simp
qed

text \<open>A zero-length word listed first keeps every later term from matching.\<close>

lemma empty_word_first_hides_later_terms: "splitTextOnHighlights ''cat'' [empty_term, cat_noun] =
     Parts [Plain ''c'', Span \<lparr>color = DEFAULT_RED, style = Underline\<rparr> [], Plain ''a'',
            Span \<lparr>color = DEFAULT_RED, style = Underline\<rparr> [], Plain ''t'']"
  by code_simp


text \<open>
  Claim C7, amended: a term with a zero-length word is not ignored, and the output with
  it can differ from the output without it; what the two outputs have in common, for
  every text and every term list, is the text they show, which is the input text.
\<close>

theorem empty_word_keeps_text:
  "rendered_text (splitTextOnHighlights text hls) = text \<and>
   rendered_text (splitTextOnHighlights text hls) =
     rendered_text (splitTextOnHighlights text (filter (\<lambda>h. word h \<noteq> []) hls))"
  by (simp add: rendered_text_split)

section \<open>The signal extractor without a source\<close>

lemma mediaStreamTrack_Absent: "mediaStreamTrack Absent = None"
  by (simp add: mediaStreamTrack_def)

lemma zero_array_nat: "n < 2 ^ 32 \<Longrightarrow> zero_array (of_nat n) = Inr (replicate n 0)"
proof -
  assume "n < 2 ^ 32"
  then have "(of_nat n :: rat) < of_nat (2 ^ 32)"
    by (simp only: of_nat_less_iff)
  then show ?thesis
    by (simp add: zero_array_def)
qed

lemma binCount_even: "binCount (2 * of_nat n) = of_nat n"
  by (simp add: binCount_def)

text \<open>
  Claim C9: when the track source resolves to no media track (it is absent, or a
  wrapper without a track) and half the configured \<^verbatim>\<open>fftSize\<close> is a length \<open>n\<close>, the
  hook starts with \<open>n\<close> zeros, and the effect sets the returned data to \<open>n\<close> zeros
  whatever they were; with the sampling loop of an earlier source stopped, no frame
  changes them afterwards.
\<close>

theorem no_source_zero_filled:
  assumes "mediaStreamTrack trackSource = None" and "fftSize = 2 * of_nat n" and "n < 2 ^ 32"
  shows "(\<exists>st0. analyzer_mount fftSize = Inr st0 \<and> length (data st0) = n \<and>
            (\<forall>x\<in>set (data st0). x = 0)) \<and>
         (\<exists>st'. analyzer_effect trackSource fftSize hasAudioContext setupFails st = Inr st' \<and>
            data st' = replicate n 0 \<and> length (data st') = n \<and>
            (\<forall>x\<in>set (data st'). x = 0) \<and>
            (\<not> analyserRef st \<longrightarrow> update bytes st' = st'))"
  using assms
  by (simp add: analyzer_mount_def analyzer_effect_def binCount_even zero_array_nat update_def)

theorem no_source_zero_filled_witness:
  "(\<exists>st0. analyzer_mount 64 = Inr st0 \<and> length (data st0) = 32 \<and> (\<forall>x\<in>set (data st0). x = 0)) \<and>
   (\<exists>st'. analyzer_effect Absent 64 True False \<lparr>data = [1 / 5, 1], analyserRef = False\<rparr> = Inr st' \<and>
      data st' = replicate 32 0) \<and>
   (\<exists>st'. analyzer_effect (Wrapper [(''track'', Absent)]) 64 True False
        \<lparr>data = [1 / 5, 1], analyserRef = False\<rparr> = Inr st' \<and>
      data st' = replicate 32 0)"
proof -
  have a: "mediaStreamTrack Absent = None" "mediaStreamTrack (Wrapper [(''track'', Absent)]) = None"
    by (simp_all add: mediaStreamTrack_def)
  have b: "(64::rat) = 2 * of_nat 32"
    by simp
  have c: "(32::nat) < 2 ^ 32"
    by simp
  note t1 = no_source_zero_filled [OF a(1) b c, of True False "\<lparr>data = [1 / 5, 1], analyserRef = False\<rparr>"]
  note t2 = no_source_zero_filled [OF a(2) b c, of True False "\<lparr>data = [1 / 5, 1], analyserRef = False\<rparr>"]
  from t1 have "\<exists>st0. analyzer_mount 64 = Inr st0 \<and> length (data st0) = 32 \<and>
      (\<forall>x\<in>set (data st0). x = 0)"
    by (rule conjunct1)
  moreover from t1 have "\<exists>st'. analyzer_effect Absent 64 True False
      \<lparr>data = [1 / 5, 1], analyserRef = False\<rparr> = Inr st' \<and> data st' = replicate 32 0"
    by blast
  moreover from t2 have "\<exists>st'. analyzer_effect (Wrapper [(''track'', Absent)]) 64 True False
      \<lparr>data = [1 / 5, 1], analyserRef = False\<rparr> = Inr st' \<and> data st' = replicate 32 0"
    by blast
  ultimately show ?thesis
    by (intro conjI)
qed

text \<open>An odd \<^verbatim>\<open>fftSize\<close> has no half that is a length: the first render throws.\<close>

lemma odd_fftSize_throws: "analyzer_mount 65 = Inl RangeError"
  by code_simp

section \<open>Registration\<close>

text \<open>
  Whether the hook is registered and the number of bindings it holds go together; a
  register call keeps it so.
\<close>

lemma register_inv:
  "length (bindings w) = (if registeredRef w then 1 else 0) \<Longrightarrow>
   length (bindings (register c w)) = (if registeredRef (register c w) then 1 else 0)"
  by (cases c) (auto simp: register_effect_def render_def registerRpcMethod_def)

lemma fold_register_inv:
  "length (bindings w) = (if registeredRef w then 1 else 0) \<Longrightarrow>
   length (bindings (fold register cs w)) = (if registeredRef (fold register cs w) then 1 else 0)"
proof (induction cs arbitrary: w)
  case Nil
  then show ?case by simp
next
  case (Cons c cs)
  from Cons.IH [OF register_inv [OF Cons.prems]] show ?case by simp
qed

lemma bindings_at_most_one: "length (bindings (fold register cs (fresh h0))) \<le> 1"
  using fold_register_inv [of "fresh h0" cs] by (simp add: fresh_def split: if_splits)

lemma register_registered:
  "registeredRef w \<Longrightarrow> register (h, s, method, throws) w = w\<lparr>handlerRef := h\<rparr>"
  by (simp add: register_effect_def render_def)

lemma fold_register_registered:
  "registeredRef w \<Longrightarrow>
   bindings (fold register cs w) = bindings w \<and> registeredRef (fold register cs w) \<and>
   unregisterRef (fold register cs w) = unregisterRef w"
proof (induction cs arbitrary: w)
  case Nil
  then show ?case by simp
next
  case (Cons c cs)
  obtain h s m t where c: "c = (h, s, m, t)" by (cases c)
  from Cons.prems have "registeredRef (register c w)" "bindings (register c w) = bindings w"
    "unregisterRef (register c w) = unregisterRef w"
    unfolding c by (simp_all add: register_effect_def render_def)
  with Cons.IH [of "register c w"] show ?case by simp
qed

lemma handlerRef_register: "handlerRef (register c w) = fst c"
  by (cases c) (auto simp: register_effect_def render_def)

lemma handlerRef_fold_register:
  "cs \<noteq> [] \<Longrightarrow> handlerRef (fold register cs w) = fst (last cs)"
proof (induction cs arbitrary: w)
  case Nil
  then show ?case by simp
next
  case (Cons c cs)
  then show ?case by (cases cs) (simp_all add: handlerRef_register)
qed

lemma invoke_handlerRef:
  "handlerRef w = handlerRef w' \<Longrightarrow> invoke parse stringify w raw st = invoke parse stringify w' raw st"
  by (simp add: invoke_def)

text \<open>
  Claim C5: after any sequence of register calls on a fresh hook there is at most one
  active binding for a session and method; a register call on a hook that is registered
  changes nothing but the handler cell (no new binding, the flags and the stored
  unregister function as before), and returns; after a first successful registration
  any further calls leave exactly that one binding; and the wrapper answers a call with
  the handler of the latest register call.
\<close>

theorem registration_idempotent:
  "length (filter (\<lambda>b. b = (s, method)) (bindings (fold register cs (fresh h0)))) \<le> 1 \<and>
   (registeredRef w \<longrightarrow> register (h, s, method, throws) w = w\<lparr>handlerRef := h\<rparr>) \<and>
   bindings (fold register cs (register (h, s, method, False) (fresh h0))) = [(s, method)] \<and>
   (cs \<noteq> [] \<longrightarrow>
      handlerRef (fold register cs (fresh h0)) = fst (last cs) \<and>
      invoke parse stringify (fold register cs (fresh h0)) raw st =
        invoke parse stringify (fresh (fst (last cs))) raw st)"
proof -
  have a: "length (filter (\<lambda>b. b = (s, method)) (bindings (fold register cs (fresh h0)))) \<le> 1"
    using bindings_at_most_one [of cs h0] length_filter_le
    by (meson le_trans)
  have r: "registeredRef (register (h, s, method, False) (fresh h0))"
    "bindings (register (h, s, method, False) (fresh h0)) = [(s, method)]"
    by (simp_all add: register_effect_def render_def fresh_def registerRpcMethod_def)
  have b: "bindings (fold register cs (register (h, s, method, False) (fresh h0))) = [(s, method)]"
    using fold_register_registered [OF r(1), of cs] r(2) by simp
  have c: "invoke parse stringify (fold register cs (fresh h0)) raw st =
        invoke parse stringify (fresh (fst (last cs))) raw st" if "cs \<noteq> []"
    using handlerRef_fold_register [OF that, of "fresh h0"]
    by (intro invoke_handlerRef) (simp add: fresh_def)
  show ?thesis
  proof (intro conjI impI)
    show "length (filter (\<lambda>b. b = (s, method)) (bindings (fold register cs (fresh h0)))) \<le> 1"
      by (rule a)
    show "register (h, s, method, throws) w = w\<lparr>handlerRef := h\<rparr>" if "registeredRef w"
      using that by (rule register_registered)
    show "bindings (fold register cs (register (h, s, method, False) (fresh h0))) = [(s, method)]"
      by (rule b)
    show "handlerRef (fold register cs (fresh h0)) = fst (last cs)" if "cs \<noteq> []"
      using that by (rule handlerRef_fold_register)
    show "invoke parse stringify (fold register cs (fresh h0)) raw st =
        invoke parse stringify (fresh (fst (last cs))) raw st" if "cs \<noteq> []"
      using that by (rule c)
  qed
qed

theorem registration_idempotent_witness:
  "length (filter (\<lambda>b. b = (1, ''update_content''))
      (bindings (fold register [(ack, 1, ''update_content'', False), (count_call, 1, ''update_content'', False)]
         (fresh ack)))) \<le> 1 \<and>
   register (count_call, 1, ''update_content'', False)
      (register (ack, 1, ''update_content'', False) (fresh ack)) =
     (register (ack, 1, ''update_content'', False) (fresh ack))\<lparr>handlerRef := count_call\<rparr> \<and>
   bindings (fold register [(ack, 1, ''update_content'', False), (count_call, 1, ''update_content'', False)]
      (register (count_call, 1, ''update_content'', False) (fresh ack))) = [(1, ''update_content'')] \<and>
   invoke parse_null stringify_any
      (fold register [(ack, 1, ''update_content'', False), (count_call, 1, ''update_content'', False)]
         (fresh ack)) ''{}'' 0 =
     (Inr success_string, 1)"
proof -
  let ?cs = "[(ack, 1::nat, ''update_content'', False), (count_call, 1, ''update_content'', False)]"
  let ?w = "register (ack, 1, ''update_content'', False) (fresh ack)"
  have r: "registeredRef ?w"
    by (simp add: register_effect_def render_def fresh_def)
  have ne: "?cs \<noteq> []"
    by simp
  have i: "invoke parse_null stringify_any (fresh count_call) ''{}'' 0 = (Inr success_string, 1)"
    by (simp add: invoke_def fresh_def count_call_def stringify_any_def)
  note t = registration_idempotent [of 1 "''update_content''" ?cs ack ?w count_call False parse_null stringify_any "''{}''" 0]
  note t1 = t [THEN conjunct1]
  note t2 = t [THEN conjunct2, THEN conjunct1, rule_format, OF r]
  note t3 = t [THEN conjunct2, THEN conjunct2, THEN conjunct1]
  note t4 = t [THEN conjunct2, THEN conjunct2, THEN conjunct2, rule_format, OF ne, THEN conjunct2]
  have l: "fst (last ?cs) = count_call"
    by simp
  have t5: "invoke parse_null stringify_any (fold register ?cs (fresh ack)) ''{}'' 0 =
      (Inr success_string, 1)"
    using t4 unfolding l i .
  show ?thesis
    using t1 t2 t3 t5 by (intro conjI)
qed



text \<open>
  The same bound for the effect as React runs it, with sessions that come and go, methods
  that change and registrations that throw: each run is preceded by the cleanup of the
  run before it.
\<close>

lemma rerun_inv:
  assumes "length (bindings w) = (if registeredRef w then 1 else 0)"
    and "registeredRef w \<longrightarrow> c \<and> unregisterRef w = Some (hd (bindings w))"
  shows "length (bindings (snd (rerun e (c, w)))) =
           (if registeredRef (snd (rerun e (c, w))) then 1 else 0) \<and>
         (registeredRef (snd (rerun e (c, w))) \<longrightarrow>
            fst (rerun e (c, w)) \<and>
            unregisterRef (snd (rerun e (c, w))) = Some (hd (bindings (snd (rerun e (c, w))))))"
proof -
  obtain room m throws where e: "e = (room, m, throws)"
    by (cases e)
  let ?w = "if c then cleanup w else w"
  have "bindings ?w = [] \<and> \<not> registeredRef ?w"
  proof (cases "registeredRef w")
    case True
    with assms obtain b where "bindings w = [b]" "unregisterRef w = Some b" "c"
      by (cases "bindings w") auto
    then show ?thesis
      by (simp add: cleanup_def unregisterRpcMethod_def)
  next
    case False
    with assms show ?thesis
      by (auto simp: cleanup_def unregisterRpcMethod_def split: option.splits)
  qed
  then show ?thesis
    unfolding e by (cases room) (auto simp: register_effect_def registerRpcMethod_def)
qed

lemma fold_rerun_inv:
  assumes "length (bindings (snd cw)) = (if registeredRef (snd cw) then 1 else 0)"
    and "registeredRef (snd cw) \<longrightarrow> fst cw \<and> unregisterRef (snd cw) = Some (hd (bindings (snd cw)))"
  shows "length (bindings (snd (fold rerun es cw))) \<le> 1"
  using assms
proof (induction es arbitrary: cw)
  case Nil
  then show ?case by (simp split: if_splits)
next
  case (Cons e es)
  obtain c w where cw: "cw = (c, w)"
    by (cases cw)
  from Cons.prems have "length (bindings w) = (if registeredRef w then 1 else 0)"
    "registeredRef w \<longrightarrow> c \<and> unregisterRef w = Some (hd (bindings w))"
    unfolding cw by simp_all
  from rerun_inv [OF this, of e] Cons.IH [of "rerun e (c, w)"] show ?case
    unfolding cw by simp
qed

lemma reruns_at_most_one: "length (bindings (snd (fold rerun es (False, fresh h0)))) \<le> 1"
  by (rule fold_rerun_inv) (simp_all add: fresh_def)

end
